theory Spec2Isabelle
  imports Main "HOL-Library.Word"
begin

section \<open>The BuzzFence sketch as a state-passing model\<close>

text \<open>
  The model follows \<^verbatim>\<open>BuzzFence/buzzFence/buzzFence.ino\<close>. The target is an
  ESP32 board: \<^verbatim>\<open>unsigned long\<close> is a 32-bit word whose subtraction wraps, and
  \<^verbatim>\<open>int\<close> is a 32-bit two's-complement integer. The global variables of the sketch
  are the fields of one record that every function takes and returns. What the sketch
  sends to the outside (the PWM pin, the LED, the serial port, \<^verbatim>\<open>delay\<close>) is
  appended to the field \<open>trace\<close>, in program order. What it reads from the outside
  (\<^verbatim>\<open>millis()\<close> and the result of \<^verbatim>\<open>WiFi.scanNetworks()\<close>) is an argument of
  the function that reads it. Pin modes, the serial baud rate and the WiFi mode are
  not modelled.
\<close>

subsection \<open>Configuration constants\<close>

definition TARGET_SSID :: string where
  "TARGET_SSID = ''thatOne''"

definition RSSI_THRESHOLD :: int where
  "RSSI_THRESHOLD = - 75"

definition BUZZ_DURATION :: int where
  "BUZZ_DURATION = 300"

definition BUZZ_PAUSE :: int where
  "BUZZ_PAUSE = 100"

definition PATTERN_PAUSE :: int where
  "PATTERN_PAUSE = 2000"

definition NORMAL_SCAN_INTERVAL :: int where
  "NORMAL_SCAN_INTERVAL = 1000"

definition FAST_SCAN_INTERVAL :: int where
  "FAST_SCAN_INTERVAL = 200"

definition FAILSAFE_TIMEOUT :: int where
  "FAILSAFE_TIMEOUT = 30000"

definition MAX_SCAN_ATTEMPTS :: int where
  "MAX_SCAN_ATTEMPTS = 3"

subsection \<open>Machine integers\<close>

type_synonym ulong = "32 word"

text \<open>
  The conversion of an \<^verbatim>\<open>int\<close> to \<^verbatim>\<open>unsigned long\<close> that C++ applies to the
  right-hand side of a comparison such as
  \<^verbatim>\<open>currentTime - lastScanTime >= currentScanInterval\<close>.
\<close>

definition to_ulong :: "int \<Rightarrow> ulong" where
  "to_ulong i = word_of_int i"

text \<open>
  The value an \<^verbatim>\<open>int\<close> variable holds after \<^verbatim>\<open>x++\<close>: the increment wraps
  around at \<open>2 ^ 31\<close>, as the 32-bit target does (C++ leaves that overflow undefined).
\<close>

definition int32 :: "int \<Rightarrow> int" where
  "int32 x = (x + 2147483648) mod 4294967296 - 2147483648"

text \<open>The quotient of C++ integer division, which truncates towards zero.\<close>

definition c_div :: "int \<Rightarrow> int \<Rightarrow> int" where
  "c_div a b = sgn a * sgn b * (\<bar>a\<bar> div \<bar>b\<bar>)"

text \<open>
  \<^verbatim>\<open>constrain(amt, low, high)\<close> and \<^verbatim>\<open>map(x, in_min, in_max, out_min, out_max)\<close>
  belong to the Arduino core, not to the sketch. They are modelled as the Arduino
  reference gives them:
  \<^verbatim>\<open>((amt)<(low)?(low):((amt)>(high)?(high):(amt)))\<close> and
  \<^verbatim>\<open>(x - in_min) * (out_max - out_min) / (in_max - in_min) + out_min\<close>.
  The sketch calls \<^verbatim>\<open>map\<close> only with \<open>- 75 < x < - 40\<close>, where no intermediate
  value leaves the range of \<^verbatim>\<open>long\<close>.
\<close>

definition constrain :: "int \<Rightarrow> int \<Rightarrow> int \<Rightarrow> int" where
  "constrain amt low high = (if amt < low then low else if amt > high then high else amt)"

definition map_long :: "int \<Rightarrow> int \<Rightarrow> int \<Rightarrow> int \<Rightarrow> int \<Rightarrow> int" where
  "map_long x in_min in_max out_min out_max =
     c_div ((x - in_min) * (out_max - out_min)) (in_max - in_min) + out_min"

subsection \<open>Outputs\<close>

datatype msg =
    Started
  | TargetNetwork
  | ThresholdInfo
  | Scanning
  | Found int
  | NotFound int
  | MotorSpeedSet int
  | EnteringBoundary
  | ExitingBoundary
  | BuzzStarted int
  | PatternComplete
  | EnteringFailsafe
  | ExitingFailsafe

datatype event =
    AnalogWrite int
  | DigitalWrite bool
  | Delay nat
  | Serial msg

subsection \<open>State variables\<close>

record state =
  lastScanTime :: ulong
  lastNetworkSeen :: ulong
  buzzStartTime :: ulong
  currentScanInterval :: int
  failedScans :: int
  inBoundaryWarning :: bool
  inFailsafe :: bool
  buzzCount :: int
  buzzing :: bool
  buzzPause :: bool
  currentMotorSpeed :: int
  trace :: "event list"

definition emit :: "event \<Rightarrow> state \<Rightarrow> state" where
  "emit e s = s\<lparr>trace := trace s @ [e]\<rparr>"

text \<open>The initialisers of the global variables.\<close>

definition initial_state :: state where
  "initial_state =
     \<lparr> lastScanTime = 0, lastNetworkSeen = 0, buzzStartTime = 0,
       currentScanInterval = NORMAL_SCAN_INTERVAL, failedScans = 0,
       inBoundaryWarning = False, inFailsafe = False, buzzCount = 0,
       buzzing = False, buzzPause = False, currentMotorSpeed = 0, trace = [] \<rparr>"

text \<open>\<^verbatim>\<open>setup()\<close>; \<open>t\<close> is what \<^verbatim>\<open>millis()\<close> returns there.\<close>

definition setup_sketch :: "ulong \<Rightarrow> state \<Rightarrow> state" where
  "setup_sketch t s =
     (let s = emit (AnalogWrite 0) s;
          s = emit (DigitalWrite False) s;
          s = emit (Serial Started) s;
          s = emit (Serial TargetNetwork) s;
          s = emit (Serial ThresholdInfo) s;
          s = s\<lparr>lastNetworkSeen := t\<rparr>
      in emit (Delay 1000) s)"

subsection \<open>Signal mapper and motor\<close>

definition mapRSSIToMotorSpeed :: "int \<Rightarrow> int" where
  "mapRSSIToMotorSpeed rssi =
     (if rssi \<ge> - 40 then 0
      else if rssi \<le> RSSI_THRESHOLD then 150
      else map_long rssi (- 40) RSSI_THRESHOLD 0 150)"

definition setMotorSpeed :: "int \<Rightarrow> state \<Rightarrow> state" where
  "setMotorSpeed speed0 s =
     (let speed = constrain speed0 0 255 in
      if speed \<noteq> currentMotorSpeed s then
        (let s = emit (AnalogWrite speed) s;
             s = emit (DigitalWrite True) s;
             s = s\<lparr>currentMotorSpeed := speed\<rparr>
         in emit (Serial (MotorSpeedSet speed)) s)
      else s)"

subsection \<open>Boundary warning pattern\<close>

definition enterBoundaryWarning :: "state \<Rightarrow> state" where
  "enterBoundaryWarning s =
     (let s = emit (Serial EnteringBoundary) s;
          s = s\<lparr>inBoundaryWarning := True, buzzCount := 0, buzzing := False,
                 buzzPause := False\<rparr>
      in setMotorSpeed 0 s)"

definition exitBoundaryWarning :: "state \<Rightarrow> state" where
  "exitBoundaryWarning s =
     (let s = emit (Serial ExitingBoundary) s;
          s = s\<lparr>inBoundaryWarning := False, buzzing := False, buzzPause := False\<rparr>
      in setMotorSpeed 0 s)"

text \<open>
  \<^verbatim>\<open>handleBoundaryWarning()\<close> is three \<^verbatim>\<open>if\<close> statements in a row, each reading
  what the one before wrote. \<open>currentTime\<close> is what \<^verbatim>\<open>millis()\<close> returns at the top.
\<close>

definition startBuzz :: "ulong \<Rightarrow> state \<Rightarrow> state" where
  "startBuzz currentTime s =
     (if \<not> buzzing s \<and> \<not> buzzPause s then
        (let s = s\<lparr>buzzing := True, buzzStartTime := currentTime\<rparr>;
             s = setMotorSpeed 200 s;
             s = emit (DigitalWrite True) s
         in emit (Serial (BuzzStarted (int32 (buzzCount s + 1)))) s)
      else s)"

definition endBuzz :: "ulong \<Rightarrow> state \<Rightarrow> state" where
  "endBuzz currentTime s =
     (if buzzing s \<and> currentTime - buzzStartTime s \<ge> to_ulong BUZZ_DURATION then
        (let s = s\<lparr>buzzing := False, buzzCount := int32 (buzzCount s + 1)\<rparr>;
             s = setMotorSpeed 0 s;
             s = emit (DigitalWrite False) s
         in if buzzCount s < 3 then
              s\<lparr>buzzPause := True, buzzStartTime := currentTime\<rparr>
            else
              emit (Serial PatternComplete)
                (s\<lparr>buzzCount := 0, buzzPause := True, buzzStartTime := currentTime\<rparr>))
      else s)"

definition endPause :: "ulong \<Rightarrow> state \<Rightarrow> state" where
  "endPause currentTime s =
     (if buzzPause s then
        (let pauseDuration = (if buzzCount s = 0 then PATTERN_PAUSE else BUZZ_PAUSE) in
         if currentTime - buzzStartTime s \<ge> to_ulong pauseDuration
         then s\<lparr>buzzPause := False\<rparr> else s)
      else s)"

definition handleBoundaryWarning :: "ulong \<Rightarrow> state \<Rightarrow> state" where
  "handleBoundaryWarning currentTime s =
     endPause currentTime (endBuzz currentTime (startBuzz currentTime s))"

subsection \<open>Failsafe\<close>

text \<open>The body of the \<^verbatim>\<open>for\<close> loop of \<^verbatim>\<open>enterFailsafeMode()\<close>, and the loop.\<close>

definition warningPulse :: "state \<Rightarrow> state" where
  "warningPulse s =
     (let s = setMotorSpeed 255 s;
          s = emit (DigitalWrite True) s;
          s = emit (Delay 500) s;
          s = setMotorSpeed 0 s;
          s = emit (DigitalWrite False) s
      in emit (Delay 300) s)"

function warningPulses :: "int \<Rightarrow> state \<Rightarrow> state" where
  "warningPulses i s = (if i < 2 then warningPulses (i + 1) (warningPulse s) else s)"
  by pat_completeness auto
termination
  by (relation "measure (\<lambda>(i, s). nat (2 - i))") auto

declare warningPulses.simps [simp del]

definition enterFailsafeMode :: "state \<Rightarrow> state" where
  "enterFailsafeMode s =
     (if \<not> inFailsafe s then
        (let s = emit (Serial EnteringFailsafe) s;
             s = s\<lparr>inFailsafe := True\<rparr>;
             s = exitBoundaryWarning s;
             s = warningPulses 0 s;
             s = setMotorSpeed 255 s
         in emit (DigitalWrite True) s)
      else s)"

definition exitFailsafeMode :: "state \<Rightarrow> state" where
  "exitFailsafeMode s =
     (if inFailsafe s then
        (let s = emit (Serial ExitingFailsafe) s;
             s = s\<lparr>inFailsafe := False\<rparr>;
             s = setMotorSpeed 0 s
         in emit (DigitalWrite False) s)
      else s)"

subsection \<open>Scanning\<close>

text \<open>
  The search loop of \<^verbatim>\<open>scanAndRespond()\<close> over the scan result, a list of
  (SSID, RSSI) pairs in the order of the indices: the first entry with the target's
  name ends the loop. A scan that fails, with a count of zero or less, is the empty list.
\<close>

fun findTarget :: "(string \<times> int) list \<Rightarrow> int option" where
  "findTarget [] = None"
| "findTarget ((ssid, rssi) # rest) =
     (if ssid = TARGET_SSID then Some rssi else findTarget rest)"

text \<open>
  The branch of \<^verbatim>\<open>scanAndRespond()\<close> for a scan without the target, the
  response to a sighting, and the function itself. \<open>t\<close> is what \<^verbatim>\<open>millis()\<close>
  returns inside the function, which reads it once on either path.
\<close>

definition failsafeCondition :: "ulong \<Rightarrow> state \<Rightarrow> bool" where
  "failsafeCondition t s \<longleftrightarrow>
     t - lastNetworkSeen s > to_ulong FAILSAFE_TIMEOUT \<or> failedScans s \<ge> MAX_SCAN_ATTEMPTS"

definition targetMissing :: "ulong \<Rightarrow> state \<Rightarrow> state" where
  "targetMissing t s =
     (let s = s\<lparr>failedScans := int32 (failedScans s + 1)\<rparr>;
          s = emit (Serial (NotFound (failedScans s))) s
      in if failsafeCondition t s then enterFailsafeMode s
         else (setMotorSpeed 255 s)\<lparr>currentScanInterval := FAST_SCAN_INTERVAL\<rparr>)"

definition respondToRSSI :: "int \<Rightarrow> state \<Rightarrow> state" where
  "respondToRSSI targetRSSI s =
     (if targetRSSI \<le> RSSI_THRESHOLD then
        (let s = (if \<not> inBoundaryWarning s then enterBoundaryWarning s else s)
         in s\<lparr>currentScanInterval := FAST_SCAN_INTERVAL\<rparr>)
      else
        (let s = (if inBoundaryWarning s then exitBoundaryWarning s else s);
             motorSpeed = mapRSSIToMotorSpeed targetRSSI;
             s = setMotorSpeed motorSpeed s
         in s\<lparr>currentScanInterval := NORMAL_SCAN_INTERVAL\<rparr>))"

definition scanAndRespond :: "(string \<times> int) list \<Rightarrow> ulong \<Rightarrow> state \<Rightarrow> state" where
  "scanAndRespond networks t s =
     (let s = emit (Serial Scanning) s in
      case findTarget networks of
        None \<Rightarrow> targetMissing t s
      | Some targetRSSI \<Rightarrow>
          (let s = s\<lparr>lastNetworkSeen := t, failedScans := 0\<rparr>;
               s = emit (Serial (Found targetRSSI)) s;
               s = (if inFailsafe s then exitFailsafeMode s else s)
           in respondToRSSI targetRSSI s))"

subsection \<open>The control loop\<close>

text \<open>
  What one pass of \<^verbatim>\<open>loop()\<close> reads: \<^verbatim>\<open>millis()\<close> at its top, the scan result
  and \<^verbatim>\<open>millis()\<close> inside \<^verbatim>\<open>scanAndRespond()\<close> (used when a scan is due), and
  \<^verbatim>\<open>millis()\<close> inside \<^verbatim>\<open>handleBoundaryWarning()\<close> (used when it is called).
\<close>

record reading =
  loopMillis :: ulong
  networks :: "(string \<times> int) list"
  scanMillis :: ulong
  patternMillis :: ulong

definition scanDue :: "reading \<Rightarrow> state \<Rightarrow> bool" where
  "scanDue r s \<longleftrightarrow> loopMillis r - lastScanTime s \<ge> to_ulong (currentScanInterval s)"

definition loopScan :: "reading \<Rightarrow> state \<Rightarrow> state" where
  "loopScan r s =
     (if scanDue r s
      then (scanAndRespond (networks r) (scanMillis r) s)\<lparr>lastScanTime := loopMillis r\<rparr>
      else s)"

definition loopPattern :: "reading \<Rightarrow> state \<Rightarrow> state" where
  "loopPattern r s =
     (if inBoundaryWarning s \<and> \<not> inFailsafe s
      then handleBoundaryWarning (patternMillis r) s else s)"

definition loop :: "reading \<Rightarrow> state \<Rightarrow> state" where
  "loop r s = emit (Delay 10) (loopPattern r (loopScan r s))"

text \<open>The states between two passes of the loop, for all readings.\<close>

inductive reachable :: "state \<Rightarrow> bool" where
  after_setup: "reachable (setup_sketch t initial_state)"
| after_loop: "reachable s \<Longrightarrow> reachable (loop r s)"

subsection \<open>Ticking the pattern machine\<close>

text \<open>
  Calls of \<^verbatim>\<open>handleBoundaryWarning()\<close> one after the other, the list giving what
  \<^verbatim>\<open>millis()\<close> returns in each; and the clock values \<open>0\<close>, \<open>10\<close>, \<open>20\<close>, ... of \<open>n\<close> calls
  that are 10 ms apart, the spacing \<^verbatim>\<open>delay(10)\<close> gives the passes of \<^verbatim>\<open>loop()\<close>.
\<close>

fun tickAll :: "ulong list \<Rightarrow> state \<Rightarrow> state" where
  "tickAll [] s = s"
| "tickAll (t # ts) s = tickAll ts (handleBoundaryWarning t s)"

definition everyTenMs :: "nat \<Rightarrow> ulong list" where
  "everyTenMs n = map (\<lambda>k. 10 * of_nat k) [0..<n]"

text \<open>
  The clock values of the calls that take the pattern through one cycle in the shortest
  time, for an entry at clock value \<open>t0\<close>: one call at the start, one at the end of each
  pulse and of each pause, and a second call at the clock value at which a short pause
  ends, which starts the next pulse.
\<close>

definition cycleTicks :: "ulong \<Rightarrow> ulong list" where
  "cycleTicks t0 =
     (let d = to_ulong BUZZ_DURATION; p = to_ulong BUZZ_PAUSE; l = to_ulong PATTERN_PAUSE
      in [t0, t0 + d,
          t0 + d + p, t0 + d + p, t0 + d + p + d,
          t0 + d + p + d + p, t0 + d + p + d + p, t0 + d + p + d + p + d,
          t0 + d + p + d + p + d + l])"

subsection \<open>Properties of states\<close>

text \<open>
  The pattern machine is idle when neither flag of \<^verbatim>\<open>handleBoundaryWarning()\<close>
  is set. It is in the long pause when \<^verbatim>\<open>buzzPause\<close> is set and \<^verbatim>\<open>buzzCount\<close>
  is zero: that is how the handler chooses \<^verbatim>\<open>PATTERN_PAUSE\<close> as its duration.
\<close>

definition patternIdle :: "state \<Rightarrow> bool" where
  "patternIdle s \<longleftrightarrow> \<not> buzzing s \<and> \<not> buzzPause s"

definition inLongPause :: "state \<Rightarrow> bool" where
  "inLongPause s \<longleftrightarrow> buzzPause s \<and> buzzCount s = 0"

text \<open>What a step from \<open>s\<close> to \<open>s'\<close> has appended to the trace.\<close>

definition newEvents :: "state \<Rightarrow> state \<Rightarrow> event list" where
  "newEvents s s' = drop (length (trace s)) (trace s')"

text \<open>The invariants of the control loop.\<close>

definition pattern_invariant :: "state \<Rightarrow> bool" where
  "pattern_invariant s \<longleftrightarrow>
     0 \<le> buzzCount s \<and> buzzCount s < 3 \<and> \<not> (buzzing s \<and> buzzPause s)"

definition failsafe_invariant :: "state \<Rightarrow> bool" where
  "failsafe_invariant s \<longleftrightarrow>
     (inFailsafe s \<longrightarrow>
        \<not> inBoundaryWarning s \<and> \<not> buzzing s \<and> \<not> buzzPause s \<and> currentMotorSpeed s = 255)"

text \<open>
  The values written to the motor pin, in order, and the number of announcements of a
  failsafe entry in a trace.
\<close>

definition motorWrites :: "event list \<Rightarrow> int list" where
  "motorWrites es = concat (map (\<lambda>e. case e of AnalogWrite v \<Rightarrow> [v] | _ \<Rightarrow> []) es)"

definition failsafeEntries :: "event list \<Rightarrow> nat" where
  "failsafeEntries es = count_list es (Serial EnteringFailsafe)"

subsection \<open>Example runs\<close>

text \<open>
  Readings in which all three clock values agree: one with an empty scan result and one
  in which the scan shows the target at a given strength. \<open>booted\<close> is the state after
  \<^verbatim>\<open>setup()\<close> at clock value \<open>0\<close>; \<open>lost\<close> follows it by one pass of the loop 40 seconds
  later that does not see the target.
\<close>

definition quiet :: "ulong \<Rightarrow> reading" where
  "quiet t = \<lparr>loopMillis = t, networks = [], scanMillis = t, patternMillis = t\<rparr>"

definition sighting :: "int \<Rightarrow> ulong \<Rightarrow> reading" where
  "sighting rssi t =
     \<lparr>loopMillis = t, networks = [(TARGET_SSID, rssi)], scanMillis = t, patternMillis = t\<rparr>"

definition booted :: state where
  "booted = setup_sketch 0 initial_state"

definition lost :: state where
  "lost = loop (quiet 40000) booted"

text \<open>
  Seven passes of the loop after \<open>booted\<close>, all seeing the target at \<open>- 80\<close>: they enter
  the boundary warning and take its pattern into the third pulse, which starts at clock
  value \<open>1820\<close>.
\<close>

definition third_pulse :: state where
  "third_pulse =
     foldl (\<lambda>s r. loop r s) booted
       [sighting (- 80) 1000, sighting (- 80) 1300, sighting (- 80) 1400,
        sighting (- 80) 1410, sighting (- 80) 1710, sighting (- 80) 1810,
        sighting (- 80) 1820]"

text \<open>
  The first of those passes leaves the pattern in its first pulse, started at clock value
  \<open>1000\<close>; after the third the first short pause has just ended.
\<close>

definition first_pulse :: state where
  "first_pulse = loop (sighting (- 80) 1000) booted"

definition between_pulses :: state where
  "between_pulses = loop (sighting (- 80) 1400) (loop (sighting (- 80) 1300) first_pulse)"

section \<open>Basic facts\<close>

lemmas config_defs =
  TARGET_SSID_def RSSI_THRESHOLD_def BUZZ_DURATION_def BUZZ_PAUSE_def PATTERN_PAUSE_def
  NORMAL_SCAN_INTERVAL_def FAST_SCAN_INTERVAL_def FAILSAFE_TIMEOUT_def MAX_SCAN_ATTEMPTS_def

lemma emit_fields [simp]:
  "lastScanTime (emit e s) = lastScanTime s"
  "lastNetworkSeen (emit e s) = lastNetworkSeen s"
  "buzzStartTime (emit e s) = buzzStartTime s"
  "currentScanInterval (emit e s) = currentScanInterval s"
  "failedScans (emit e s) = failedScans s"
  "inBoundaryWarning (emit e s) = inBoundaryWarning s"
  "inFailsafe (emit e s) = inFailsafe s"
  "buzzCount (emit e s) = buzzCount s"
  "buzzing (emit e s) = buzzing s"
  "buzzPause (emit e s) = buzzPause s"
  "currentMotorSpeed (emit e s) = currentMotorSpeed s"
  "trace (emit e s) = trace s @ [e]"
  by (simp_all add: emit_def)

lemma setMotorSpeed_fields [simp]:
  "lastScanTime (setMotorSpeed v s) = lastScanTime s"
  "lastNetworkSeen (setMotorSpeed v s) = lastNetworkSeen s"
  "buzzStartTime (setMotorSpeed v s) = buzzStartTime s"
  "currentScanInterval (setMotorSpeed v s) = currentScanInterval s"
  "failedScans (setMotorSpeed v s) = failedScans s"
  "inBoundaryWarning (setMotorSpeed v s) = inBoundaryWarning s"
  "inFailsafe (setMotorSpeed v s) = inFailsafe s"
  "buzzCount (setMotorSpeed v s) = buzzCount s"
  "buzzing (setMotorSpeed v s) = buzzing s"
  "buzzPause (setMotorSpeed v s) = buzzPause s"
  "currentMotorSpeed (setMotorSpeed v s) = constrain v 0 255"
  by (simp_all add: setMotorSpeed_def Let_def)

lemma setMotorSpeed_trace:
  "trace (setMotorSpeed v s) =
     trace s @ (if constrain v 0 255 \<noteq> currentMotorSpeed s
                then [AnalogWrite (constrain v 0 255), DigitalWrite True,
                      Serial (MotorSpeedSet (constrain v 0 255))]
                else [])"
  by (simp add: setMotorSpeed_def Let_def)

lemma constrain_numerals [simp]:
  "constrain 0 0 255 = 0" "constrain 200 0 255 = 200" "constrain 255 0 255 = 255"
  by (simp_all add: constrain_def)

lemma int32_id: "- 2147483648 \<le> x \<Longrightarrow> x < 2147483648 \<Longrightarrow> int32 x = x"
  by (simp add: int32_def)

lemma startBuzz_fields [simp]:
  "inFailsafe (startBuzz t s) = inFailsafe s"
  "inBoundaryWarning (startBuzz t s) = inBoundaryWarning s"
  "buzzCount (startBuzz t s) = buzzCount s"
  "buzzPause (startBuzz t s) = buzzPause s"
  "buzzing (startBuzz t s) = (buzzing s \<or> \<not> buzzPause s)"
  by (auto simp add: startBuzz_def Let_def)

lemma endBuzz_fields [simp]:
  "inFailsafe (endBuzz t s) = inFailsafe s"
  "inBoundaryWarning (endBuzz t s) = inBoundaryWarning s"
  by (auto simp add: endBuzz_def Let_def)

lemma endPause_fields [simp]:
  "inFailsafe (endPause t s) = inFailsafe s"
  "inBoundaryWarning (endPause t s) = inBoundaryWarning s"
  "buzzCount (endPause t s) = buzzCount s"
  "buzzing (endPause t s) = buzzing s"
  "currentMotorSpeed (endPause t s) = currentMotorSpeed s"
  "trace (endPause t s) = trace s"
  by (auto simp add: endPause_def Let_def)

section \<open>Signal mapper\<close>

text \<open>
  C5. The endpoints of the signal mapper: every strength of at least \<open>- 40\<close> is mapped
  to intensity \<open>0\<close>, and every strength of at most \<open>- 75\<close>, the RSSI threshold, is mapped
  to intensity \<open>150\<close>.
\<close>

theorem mapRSSIToMotorSpeed_endpoints:
  "(\<forall>s. s \<ge> - 40 \<longrightarrow> mapRSSIToMotorSpeed s = 0) \<and>
   (\<forall>s. s \<le> - 75 \<longrightarrow> mapRSSIToMotorSpeed s = 150) \<and>
   RSSI_THRESHOLD = - 75"
  by (simp add: mapRSSIToMotorSpeed_def RSSI_THRESHOLD_def)

theorem mapRSSIToMotorSpeed_endpoints_witness:
  "mapRSSIToMotorSpeed (- 30) = 0 \<and> mapRSSIToMotorSpeed (- 40) = 0 \<and>
   mapRSSIToMotorSpeed (- 75) = 150 \<and> mapRSSIToMotorSpeed (- 100) = 150"
  using mapRSSIToMotorSpeed_endpoints by simp

lemma map_long_rssi:
  "- 75 < x \<Longrightarrow> x < - 40 \<Longrightarrow> map_long x (- 40) (- 75) 0 150 = ((- 40 - x) * 150) div 35"
  by (simp add: map_long_def c_div_def sgn_if abs_if algebra_simps)

text \<open>
  C6. Between the endpoints the mapper is monotone and bounded: for strengths
  \<open>s1 < s2\<close>, both strictly between \<open>- 75\<close> and \<open>- 40\<close>, the intensity at \<open>s2\<close> is
  at most the intensity at \<open>s1\<close>, and for every strength strictly between \<open>- 75\<close> and
  \<open>- 40\<close> the intensity lies between \<open>0\<close> and \<open>150\<close>.
\<close>

theorem mapRSSIToMotorSpeed_antimono_bounded:
  "(\<forall>s1 s2. - 75 < s1 \<and> s1 < s2 \<and> s2 < - 40 \<longrightarrow>
        mapRSSIToMotorSpeed s2 \<le> mapRSSIToMotorSpeed s1) \<and>
   (\<forall>s. - 75 < s \<and> s < - 40 \<longrightarrow>
        0 \<le> mapRSSIToMotorSpeed s \<and> mapRSSIToMotorSpeed s \<le> 150)"
proof -
  have mono: "mapRSSIToMotorSpeed s2 \<le> mapRSSIToMotorSpeed s1"
    if "- 75 < s1" "s1 < s2" "s2 < - 40" for s1 s2
  proof -
    have "(- 40 - s2) * 150 div 35 \<le> (- 40 - s1) * 150 div 35"
      using that by (intro zdiv_mono1) simp_all
    with that show ?thesis
      by (simp add: mapRSSIToMotorSpeed_def RSSI_THRESHOLD_def map_long_rssi)
  qed
  have bounds: "0 \<le> mapRSSIToMotorSpeed s \<and> mapRSSIToMotorSpeed s \<le> 150"
    if "- 75 < s" "s < - 40" for s
  proof -
    have lower: "0 \<le> (- 40 - s) * 150 div 35"
      using that by (simp add: pos_imp_zdiv_nonneg_iff)
    have "(- 40 - s) * 150 div 35 \<le> 5250 div 35"
      using that by (intro zdiv_mono1) simp_all
    then have upper: "(- 40 - s) * 150 div 35 \<le> 150"
      by simp
    from that lower upper show ?thesis
      by (simp add: mapRSSIToMotorSpeed_def RSSI_THRESHOLD_def map_long_rssi)
  qed
  from mono bounds show ?thesis by blast
qed

theorem mapRSSIToMotorSpeed_antimono_bounded_witness:
  "(- 75 :: int) < - 60 \<and> (- 60 :: int) < - 50 \<and> (- 50 :: int) < - 40 \<and>
   mapRSSIToMotorSpeed (- 50) \<le> mapRSSIToMotorSpeed (- 60) \<and>
   0 \<le> mapRSSIToMotorSpeed (- 60) \<and> mapRSSIToMotorSpeed (- 60) \<le> 150"
proof -
  have h: "(- 75 :: int) < - 60 \<and> (- 60 :: int) < - 50 \<and> (- 50 :: int) < - 40"
    by simp
  have h': "(- 75 :: int) < - 60 \<and> (- 60 :: int) < - 40"
    by simp
  from mapRSSIToMotorSpeed_antimono_bounded h h' show ?thesis
    by blast
qed

section \<open>Leaving the boundary warning\<close>

text \<open>
  C7. From every state of the pattern machine (in a pulse, in the short pause or in the
  long pause) \<^verbatim>\<open>exitBoundaryWarning()\<close> leaves the commanded intensity at \<open>0\<close>, the
  machine not entered and idle, and it does not complete the pulse it interrupts: the
  pulse count is unchanged and the only outputs are the exit message and, when the motor
  was running, the write of \<open>0\<close>.
\<close>

theorem exitBoundaryWarning_stops_at_once:
  "currentMotorSpeed (exitBoundaryWarning s) = 0 \<and>
   \<not> inBoundaryWarning (exitBoundaryWarning s) \<and>
   patternIdle (exitBoundaryWarning s) \<and>
   buzzCount (exitBoundaryWarning s) = buzzCount s \<and>
   trace (exitBoundaryWarning s) =
     trace s @ Serial ExitingBoundary #
       (if currentMotorSpeed s = 0 then []
        else [AnalogWrite 0, DigitalWrite True, Serial (MotorSpeedSet 0)])"
  by (simp add: exitBoundaryWarning_def Let_def patternIdle_def setMotorSpeed_trace)

section \<open>Invariants of the control loop\<close>

lemma pattern_invariant_startBuzz:
  "pattern_invariant s \<Longrightarrow> pattern_invariant (startBuzz t s)"
  by (auto simp add: pattern_invariant_def)

lemma pattern_invariant_endBuzz:
  "pattern_invariant s \<Longrightarrow> pattern_invariant (endBuzz t s)"
  by (auto simp add: pattern_invariant_def endBuzz_def Let_def int32_id)

lemma pattern_invariant_endPause:
  "pattern_invariant s \<Longrightarrow> pattern_invariant (endPause t s)"
  by (auto simp add: pattern_invariant_def endPause_def Let_def)

lemma pattern_invariant_handleBoundaryWarning:
  "pattern_invariant s \<Longrightarrow> pattern_invariant (handleBoundaryWarning t s)"
  by (simp add: handleBoundaryWarning_def pattern_invariant_startBuzz
      pattern_invariant_endBuzz pattern_invariant_endPause)

lemma handleBoundaryWarning_fields [simp]:
  "inFailsafe (handleBoundaryWarning t s) = inFailsafe s"
  "inBoundaryWarning (handleBoundaryWarning t s) = inBoundaryWarning s"
  by (simp_all add: handleBoundaryWarning_def)

lemma exitBoundaryWarning_fields [simp]:
  "inFailsafe (exitBoundaryWarning s) = inFailsafe s"
  "inBoundaryWarning (exitBoundaryWarning s) = False"
  "buzzing (exitBoundaryWarning s) = False"
  "buzzPause (exitBoundaryWarning s) = False"
  "buzzCount (exitBoundaryWarning s) = buzzCount s"
  "currentMotorSpeed (exitBoundaryWarning s) = 0"
  "failedScans (exitBoundaryWarning s) = failedScans s"
  "lastNetworkSeen (exitBoundaryWarning s) = lastNetworkSeen s"
  "currentScanInterval (exitBoundaryWarning s) = currentScanInterval s"
  by (simp_all add: exitBoundaryWarning_def Let_def)

lemma enterBoundaryWarning_fields [simp]:
  "inFailsafe (enterBoundaryWarning s) = inFailsafe s"
  "inBoundaryWarning (enterBoundaryWarning s) = True"
  "buzzing (enterBoundaryWarning s) = False"
  "buzzPause (enterBoundaryWarning s) = False"
  "buzzCount (enterBoundaryWarning s) = 0"
  "currentMotorSpeed (enterBoundaryWarning s) = 0"
  "failedScans (enterBoundaryWarning s) = failedScans s"
  "lastNetworkSeen (enterBoundaryWarning s) = lastNetworkSeen s"
  by (simp_all add: enterBoundaryWarning_def Let_def)

lemma warningPulse_fields [simp]:
  "inFailsafe (warningPulse s) = inFailsafe s"
  "inBoundaryWarning (warningPulse s) = inBoundaryWarning s"
  "buzzing (warningPulse s) = buzzing s"
  "buzzPause (warningPulse s) = buzzPause s"
  "buzzCount (warningPulse s) = buzzCount s"
  "currentMotorSpeed (warningPulse s) = 0"
  "failedScans (warningPulse s) = failedScans s"
  "lastNetworkSeen (warningPulse s) = lastNetworkSeen s"
  "currentScanInterval (warningPulse s) = currentScanInterval s"
  by (simp_all add: warningPulse_def Let_def)

lemma warningPulses_0: "warningPulses 0 s = warningPulse (warningPulse s)"
  by (simp add: warningPulses.simps)

lemma enterFailsafeMode_fields [simp]:
  "inFailsafe (enterFailsafeMode s) = True"
  "buzzCount (enterFailsafeMode s) = buzzCount s"
  "failedScans (enterFailsafeMode s) = failedScans s"
  "lastNetworkSeen (enterFailsafeMode s) = lastNetworkSeen s"
  "currentScanInterval (enterFailsafeMode s) = currentScanInterval s"
  by (simp_all add: enterFailsafeMode_def Let_def warningPulses_0)

lemma enterFailsafeMode_fresh:
  "\<not> inFailsafe s \<Longrightarrow>
     \<not> inBoundaryWarning (enterFailsafeMode s) \<and> \<not> buzzing (enterFailsafeMode s) \<and>
     \<not> buzzPause (enterFailsafeMode s) \<and> currentMotorSpeed (enterFailsafeMode s) = 255"
  by (simp add: enterFailsafeMode_def Let_def warningPulses_0)

lemma enterFailsafeMode_again: "inFailsafe s \<Longrightarrow> enterFailsafeMode s = s"
  by (simp add: enterFailsafeMode_def)

lemma exitFailsafeMode_fields [simp]:
  "inFailsafe (exitFailsafeMode s) = False"
  "inBoundaryWarning (exitFailsafeMode s) = inBoundaryWarning s"
  "buzzing (exitFailsafeMode s) = buzzing s"
  "buzzPause (exitFailsafeMode s) = buzzPause s"
  "buzzCount (exitFailsafeMode s) = buzzCount s"
  "failedScans (exitFailsafeMode s) = failedScans s"
  "lastNetworkSeen (exitFailsafeMode s) = lastNetworkSeen s"
  by (simp_all add: exitFailsafeMode_def Let_def)

lemma invariants_enterFailsafeMode:
  "pattern_invariant s \<Longrightarrow> failsafe_invariant s \<Longrightarrow>
     pattern_invariant (enterFailsafeMode s) \<and> failsafe_invariant (enterFailsafeMode s)"
  by (cases "inFailsafe s")
     (simp_all add: enterFailsafeMode_again enterFailsafeMode_fresh
        pattern_invariant_def failsafe_invariant_def)

lemma invariants_targetMissing:
  assumes "pattern_invariant s" "failsafe_invariant s"
  shows "pattern_invariant (targetMissing t s) \<and> failsafe_invariant (targetMissing t s)"
proof -
  let ?s = "emit (Serial (NotFound (int32 (failedScans s + 1))))
              (s\<lparr>failedScans := int32 (failedScans s + 1)\<rparr>)"
  from assms have inv: "pattern_invariant ?s" "failsafe_invariant ?s"
    by (simp_all add: pattern_invariant_def failsafe_invariant_def)
  show ?thesis
  proof (cases "failsafeCondition t ?s")
    case True
    then have "targetMissing t s = enterFailsafeMode ?s"
      by (simp add: targetMissing_def Let_def)
    with inv show ?thesis
      by (simp add: invariants_enterFailsafeMode)
  next
    case False
    then have "targetMissing t s =
        (setMotorSpeed 255 ?s)\<lparr>currentScanInterval := FAST_SCAN_INTERVAL\<rparr>"
      by (simp add: targetMissing_def Let_def)
    with inv show ?thesis
      by (simp add: pattern_invariant_def failsafe_invariant_def)
  qed
qed

lemma invariants_respondToRSSI:
  "pattern_invariant s \<Longrightarrow> \<not> inFailsafe s \<Longrightarrow>
     pattern_invariant (respondToRSSI rssi s) \<and> \<not> inFailsafe (respondToRSSI rssi s)"
  by (simp add: respondToRSSI_def Let_def pattern_invariant_def)

lemma invariants_scanAndRespond:
  "pattern_invariant s \<Longrightarrow> failsafe_invariant s \<Longrightarrow>
     pattern_invariant (scanAndRespond nets t s) \<and> failsafe_invariant (scanAndRespond nets t s)"
proof (cases "findTarget nets")
  case None
  assume "pattern_invariant s" "failsafe_invariant s"
  then have "pattern_invariant (emit (Serial Scanning) s)" "failsafe_invariant (emit (Serial Scanning) s)"
    by (simp_all add: pattern_invariant_def failsafe_invariant_def)
  with None show ?thesis
    by (simp add: scanAndRespond_def Let_def invariants_targetMissing)
next
  case (Some rssi)
  assume a: "pattern_invariant s" "failsafe_invariant s"
  let ?s = "emit (Serial (Found rssi)) (emit (Serial Scanning) s\<lparr>lastNetworkSeen := t, failedScans := 0\<rparr>)"
  let ?s' = "if inFailsafe ?s then exitFailsafeMode ?s else ?s"
  from a have "pattern_invariant ?s'" "\<not> inFailsafe ?s'"
    by (simp_all add: pattern_invariant_def)
  then have "pattern_invariant (respondToRSSI rssi ?s') \<and> \<not> inFailsafe (respondToRSSI rssi ?s')"
    by (rule invariants_respondToRSSI)
  with Some show ?thesis
    by (simp add: scanAndRespond_def Let_def failsafe_invariant_def)
qed

lemma invariants_loop:
  assumes "pattern_invariant s" "failsafe_invariant s"
  shows "pattern_invariant (loop r s) \<and> failsafe_invariant (loop r s)"
proof -
  have 1: "pattern_invariant (loopScan r s) \<and> failsafe_invariant (loopScan r s)"
    using assms invariants_scanAndRespond [OF assms, of "networks r" "scanMillis r"]
    by (simp add: loopScan_def pattern_invariant_def failsafe_invariant_def)
  then have 2: "pattern_invariant (loopPattern r (loopScan r s))"
    by (simp add: loopPattern_def pattern_invariant_handleBoundaryWarning)
  from 1 have 3: "failsafe_invariant (loopPattern r (loopScan r s))"
    by (simp add: loopPattern_def failsafe_invariant_def)
  from 2 3 show ?thesis
    by (simp add: loop_def pattern_invariant_def failsafe_invariant_def)
qed

lemma reachable_invariants:
  "reachable s \<Longrightarrow> pattern_invariant s \<and> failsafe_invariant s"
proof (induction rule: reachable.induct)
  case (after_setup t)
  show ?case
    by (simp add: setup_sketch_def initial_state_def Let_def
        pattern_invariant_def failsafe_invariant_def)
next
  case (after_loop s r)
  then show ?case by (simp add: invariants_loop)
qed

text \<open>
  C1. In every reachable state of the control loop the two warning modes exclude each
  other: when the failsafe flag is set, the boundary warning is not entered and its
  machine is idle. In every pass of the loop from a reachable state, if the failsafe
  flag is set after the scanning part, the boundary warning is not entered there and
  the pattern part of the pass changes nothing, so the handler is not called.
\<close>

theorem failsafe_excludes_boundary_warning:
  assumes "reachable s"
  shows "(inFailsafe s \<longrightarrow> \<not> inBoundaryWarning s \<and> patternIdle s) \<and>
         (\<forall>r. inFailsafe (loopScan r s) \<longrightarrow>
                \<not> inBoundaryWarning (loopScan r s) \<and> patternIdle (loopScan r s) \<and>
                loopPattern r (loopScan r s) = loopScan r s)"
proof -
  from assms have inv: "pattern_invariant s" "failsafe_invariant s"
    by (simp_all add: reachable_invariants)
  have "failsafe_invariant (loopScan r s)" for r
    using inv invariants_scanAndRespond [OF inv, of "networks r" "scanMillis r"]
    by (simp add: loopScan_def failsafe_invariant_def)
  then have "\<forall>r. inFailsafe (loopScan r s) \<longrightarrow>
                \<not> inBoundaryWarning (loopScan r s) \<and> patternIdle (loopScan r s) \<and>
                loopPattern r (loopScan r s) = loopScan r s"
    by (simp add: failsafe_invariant_def patternIdle_def loopPattern_def)
  with inv show ?thesis
    by (simp add: failsafe_invariant_def patternIdle_def)
qed

lemmas model_defs =
  loop_def loopScan_def loopPattern_def scanDue_def scanAndRespond_def targetMissing_def
  failsafeCondition_def respondToRSSI_def enterFailsafeMode_def exitFailsafeMode_def
  enterBoundaryWarning_def exitBoundaryWarning_def handleBoundaryWarning_def
  startBuzz_def endBuzz_def endPause_def warningPulse_def warningPulses_0
  setMotorSpeed_def emit_def setup_sketch_def initial_state_def
  to_ulong_def int32_def constrain_def config_defs Let_def

lemmas example_defs = quiet_def sighting_def booted_def lost_def

lemma reachable_booted: "reachable booted"
  unfolding booted_def by (rule reachable.after_setup)

lemma reachable_lost: "reachable lost"
  unfolding lost_def by (rule reachable.after_loop) (rule reachable_booted)

lemma inFailsafe_lost: "inFailsafe lost"
  by (simp add: example_defs model_defs)

theorem failsafe_excludes_boundary_warning_witness:
  "reachable lost \<and> inFailsafe lost \<and> \<not> inBoundaryWarning lost \<and> patternIdle lost \<and>
   inFailsafe (loopScan (quiet 41000) lost) \<and>
   loopPattern (quiet 41000) (loopScan (quiet 41000) lost) = loopScan (quiet 41000) lost"
proof -
  have "inFailsafe (loopScan (quiet 41000) lost)"
    by (simp add: example_defs model_defs)
  with failsafe_excludes_boundary_warning [OF reachable_lost] reachable_lost inFailsafe_lost
  show ?thesis
    by blast
qed

section \<open>Scans that miss the target\<close>

lemma ulong_gt_iff: "(to_ulong FAILSAFE_TIMEOUT < w) = (FAILSAFE_TIMEOUT < uint w)"
  by (simp add: to_ulong_def FAILSAFE_TIMEOUT_def word_less_def)

lemma findTarget_None_scan:
  "findTarget nets = None \<Longrightarrow>
     scanAndRespond nets t s = targetMissing t (emit (Serial Scanning) s)"
  by (simp add: scanAndRespond_def Let_def)

lemma targetMissing_failedScans [simp]:
  "failedScans (targetMissing t s) = int32 (failedScans s + 1)"
  by (simp add: targetMissing_def Let_def)

text \<open>
  C2. A scan that does not show the target counts one more miss. Failsafe is entered if
  the clock has advanced by more than \<^verbatim>\<open>FAILSAFE_TIMEOUT\<close> since the last sighting or
  if the count of misses has reached \<^verbatim>\<open>MAX_SCAN_ATTEMPTS\<close>, either alone sufficing; from
  a state outside failsafe it is entered only then. When neither holds the miss leaves
  the failsafe flag as it was, commands intensity \<open>255\<close>, selects the fast scan interval,
  leaves the boundary-warning flag alone and does nothing else: its only outputs are the
  two messages of the scan and, unless the motor already ran at \<open>255\<close>, the write of \<open>255\<close>.
\<close>

theorem missed_scan_failsafe_iff:
  assumes "findTarget nets = None"
  shows "failedScans (scanAndRespond nets t s) = int32 (failedScans s + 1) \<and>
    (let s' = scanAndRespond nets t s;
         due = (FAILSAFE_TIMEOUT < uint (t - lastNetworkSeen s) \<or>
                MAX_SCAN_ATTEMPTS \<le> failedScans s')
     in (due \<longrightarrow> inFailsafe s') \<and>
        (\<not> inFailsafe s \<longrightarrow> (inFailsafe s' \<longleftrightarrow> due)) \<and>
        (\<not> due \<longrightarrow>
           inFailsafe s' = inFailsafe s \<and>
           currentMotorSpeed s' = 255 \<and>
           currentScanInterval s' = FAST_SCAN_INTERVAL \<and>
           inBoundaryWarning s' = inBoundaryWarning s \<and>
           newEvents s s' =
             [Serial Scanning, Serial (NotFound (failedScans s'))] @
             (if currentMotorSpeed s = 255 then []
              else [AnalogWrite 255, DigitalWrite True, Serial (MotorSpeedSet 255)])))"
  using assms
  by (simp add: findTarget_None_scan Let_def)
     (auto simp add: targetMissing_def failsafeCondition_def ulong_gt_iff Let_def
        newEvents_def setMotorSpeed_trace)

theorem missed_scan_failsafe_iff_witness:
  "findTarget [(''other'', - 50)] = None \<and>
   \<not> inFailsafe (scanAndRespond [(''other'', - 50)] 1000 booted) \<and>
   currentMotorSpeed (scanAndRespond [(''other'', - 50)] 1000 booted) = 255 \<and>
   currentScanInterval (scanAndRespond [(''other'', - 50)] 1000 booted) = 200 \<and>
   inFailsafe (scanAndRespond [(''other'', - 50)] 40000 booted)"
proof -
  have h: "findTarget [(''other'', - 50)] = None"
    by (simp add: TARGET_SSID_def)
  have i: "failedScans booted = 0" "lastNetworkSeen booted = 0" "\<not> inFailsafe booted"
    by (simp_all add: booted_def setup_sketch_def initial_state_def Let_def)
  from missed_scan_failsafe_iff [OF h, of 1000 booted]
       missed_scan_failsafe_iff [OF h, of 40000 booted] h i
  show ?thesis
    by (simp add: Let_def int32_def config_defs)
qed

section \<open>Leaving failsafe\<close>

lemma respondToRSSI_inFailsafe [simp]:
  "inFailsafe (respondToRSSI rssi s) = inFailsafe s"
  by (simp add: respondToRSSI_def Let_def)

lemma targetMissing_keeps_failsafe:
  "inFailsafe s \<Longrightarrow> inFailsafe (targetMissing t s)"
  by (simp add: targetMissing_def Let_def)

lemma scanAndRespond_inFailsafe:
  "inFailsafe s \<Longrightarrow>
     inFailsafe (scanAndRespond nets t s) = (findTarget nets = None)"
  by (cases "findTarget nets")
     (simp_all add: scanAndRespond_def Let_def targetMissing_keeps_failsafe)

lemma loop_inFailsafe: "inFailsafe (loop r s) = inFailsafe (loopScan r s)"
  by (simp add: loop_def loopPattern_def)

lemma scanAndRespond_exit_trace:
  assumes "inFailsafe s" "findTarget nets = Some rssi" "currentMotorSpeed s = 255"
  shows "take 7 (newEvents s (scanAndRespond nets t s)) =
           [Serial Scanning, Serial (Found rssi), Serial ExitingFailsafe,
            AnalogWrite 0, DigitalWrite True, Serial (MotorSpeedSet 0), DigitalWrite False]"
  using assms
  by (simp add: newEvents_def scanAndRespond_def Let_def exitFailsafeMode_def
      respondToRSSI_def enterBoundaryWarning_def exitBoundaryWarning_def setMotorSpeed_trace)

text \<open>
  C3. From a state in failsafe, a pass of the loop ends outside failsafe exactly when
  its scan is due and shows the target; the clock values of the pass play no other
  part, so no passing of time clears the flag. \<^verbatim>\<open>exitFailsafeMode()\<close> clears the flag and
  leaves the commanded intensity at \<open>0\<close>, and in a reachable state the scan that shows
  the target writes \<open>0\<close> to the motor right after its two scan messages and the exit
  message, before it responds to the strength.
\<close>

theorem failsafe_cleared_only_by_sighting:
  assumes "inFailsafe s"
  shows "(\<forall>r. \<not> inFailsafe (loop r s) \<longleftrightarrow>
              scanDue r s \<and> findTarget (networks r) \<noteq> None) \<and>
         \<not> inFailsafe (exitFailsafeMode s) \<and>
         currentMotorSpeed (exitFailsafeMode s) = 0 \<and>
         (reachable s \<longrightarrow>
            (\<forall>nets t rssi. findTarget nets = Some rssi \<longrightarrow>
               take 7 (newEvents s (scanAndRespond nets t s)) =
                 [Serial Scanning, Serial (Found rssi), Serial ExitingFailsafe,
                  AnalogWrite 0, DigitalWrite True, Serial (MotorSpeedSet 0),
                  DigitalWrite False]))"
proof -
  have a: "\<not> inFailsafe (loop r s) \<longleftrightarrow> scanDue r s \<and> findTarget (networks r) \<noteq> None"
    for r
    using assms by (simp add: loop_inFailsafe loopScan_def scanAndRespond_inFailsafe)
  have b: "\<not> inFailsafe (exitFailsafeMode s) \<and> currentMotorSpeed (exitFailsafeMode s) = 0"
    using assms by (simp add: exitFailsafeMode_def Let_def)
  have c: "take 7 (newEvents s (scanAndRespond nets t s)) =
                 [Serial Scanning, Serial (Found rssi), Serial ExitingFailsafe,
                  AnalogWrite 0, DigitalWrite True, Serial (MotorSpeedSet 0),
                  DigitalWrite False]"
    if "reachable s" "findTarget nets = Some rssi" for nets t rssi
  proof -
    from that(1) assms have "currentMotorSpeed s = 255"
      using reachable_invariants [of s] by (simp add: failsafe_invariant_def)
    with assms that(2) show ?thesis
      by (rule scanAndRespond_exit_trace)
  qed
  from a b c show ?thesis by blast
qed

theorem failsafe_cleared_only_by_sighting_witness:
  "inFailsafe lost \<and> reachable lost \<and>
   inFailsafe (loop (quiet 4000000) lost) \<and>
   inFailsafe (loop (sighting (- 50) 40500) lost) \<and>
   scanDue (sighting (- 50) 41000) lost \<and>
   findTarget (networks (sighting (- 50) 41000)) = Some (- 50) \<and>
   \<not> inFailsafe (loop (sighting (- 50) 41000) lost) \<and>
   currentMotorSpeed (exitFailsafeMode lost) = 0 \<and>
   take 7 (newEvents lost (scanAndRespond (networks (sighting (- 50) 41000)) 41000 lost)) =
     [Serial Scanning, Serial (Found (- 50)), Serial ExitingFailsafe,
      AnalogWrite 0, DigitalWrite True, Serial (MotorSpeedSet 0), DigitalWrite False]"
proof -
  note T = failsafe_cleared_only_by_sighting [OF inFailsafe_lost]
  have d: "scanDue (sighting (- 50) 41000) lost" "\<not> scanDue (sighting (- 50) 40500) lost"
    by (simp_all add: example_defs model_defs)
  have f: "findTarget (networks (sighting (- 50) 41000)) = Some (- 50)"
    "findTarget (networks (quiet 4000000)) = None"
    by (simp_all add: example_defs)
  from T f(2) have 1: "inFailsafe (loop (quiet 4000000) lost)"
    by blast
  from T d(2) have 2: "inFailsafe (loop (sighting (- 50) 40500) lost)"
    by blast
  from T d(1) f(1) have 3: "\<not> inFailsafe (loop (sighting (- 50) 41000) lost)"
    by blast
  from T have 4: "currentMotorSpeed (exitFailsafeMode lost) = 0"
    by blast
  from T reachable_lost f(1)
  have 5: "take 7 (newEvents lost (scanAndRespond (networks (sighting (- 50) 41000)) 41000 lost)) =
     [Serial Scanning, Serial (Found (- 50)), Serial ExitingFailsafe,
      AnalogWrite 0, DigitalWrite True, Serial (MotorSpeedSet 0), DigitalWrite False]"
    by blast
  from inFailsafe_lost reachable_lost 1 2 d(1) f(1) 3 4 5 show ?thesis
    by blast
qed

section \<open>Entering failsafe\<close>

lemma motorWrites_simps [simp]:
  "motorWrites [] = []"
  "motorWrites (AnalogWrite v # es) = v # motorWrites es"
  "motorWrites (DigitalWrite b # es) = motorWrites es"
  "motorWrites (Delay n # es) = motorWrites es"
  "motorWrites (Serial m # es) = motorWrites es"
  "motorWrites (es @ es') = motorWrites es @ motorWrites es'"
  by (simp_all add: motorWrites_def)

lemma failsafeEntries_simps [simp]:
  "failsafeEntries [] = 0"
  "failsafeEntries (e # es) = (if e = Serial EnteringFailsafe then 1 else 0) + failsafeEntries es"
  "failsafeEntries (es @ es') = failsafeEntries es + failsafeEntries es'"
  by (simp_all add: failsafeEntries_def)

lemma enterFailsafeMode_trace:
  "\<not> inFailsafe s \<Longrightarrow>
   trace (enterFailsafeMode s) = trace s @
     [Serial EnteringFailsafe, Serial ExitingBoundary] @
     (if currentMotorSpeed s = 0 then []
      else [AnalogWrite 0, DigitalWrite True, Serial (MotorSpeedSet 0)]) @
     [AnalogWrite 255, DigitalWrite True, Serial (MotorSpeedSet 255), DigitalWrite True,
      Delay 500,
      AnalogWrite 0, DigitalWrite True, Serial (MotorSpeedSet 0), DigitalWrite False,
      Delay 300,
      AnalogWrite 255, DigitalWrite True, Serial (MotorSpeedSet 255), DigitalWrite True,
      Delay 500,
      AnalogWrite 0, DigitalWrite True, Serial (MotorSpeedSet 0), DigitalWrite False,
      Delay 300,
      AnalogWrite 255, DigitalWrite True, Serial (MotorSpeedSet 255), DigitalWrite True]"
  by (simp add: enterFailsafeMode_def exitBoundaryWarning_def warningPulses_0 warningPulse_def
      Let_def setMotorSpeed_trace)

lemma setMotorSpeed_same: "currentMotorSpeed s = constrain v 0 255 \<Longrightarrow> setMotorSpeed v s = s"
  by (simp add: setMotorSpeed_def)

lemma failsafeEntries_setMotorSpeed [simp]:
  "failsafeEntries (trace (setMotorSpeed v s)) = failsafeEntries (trace s)"
  by (simp add: setMotorSpeed_trace)

lemma failsafeEntries_handleBoundaryWarning [simp]:
  "failsafeEntries (trace (handleBoundaryWarning t s)) = failsafeEntries (trace s)"
  by (simp add: handleBoundaryWarning_def startBuzz_def endBuzz_def Let_def)

lemma failsafeEntries_exitFailsafeMode [simp]:
  "failsafeEntries (trace (exitFailsafeMode s)) = failsafeEntries (trace s)"
  by (simp add: exitFailsafeMode_def Let_def)

lemma failsafeEntries_respondToRSSI [simp]:
  "failsafeEntries (trace (respondToRSSI rssi s)) = failsafeEntries (trace s)"
  by (simp add: respondToRSSI_def enterBoundaryWarning_def exitBoundaryWarning_def Let_def)

lemma failsafeEntries_enterFailsafeMode:
  "failsafeEntries (trace (enterFailsafeMode s)) =
     failsafeEntries (trace s) + (if inFailsafe s then 0 else 1)"
  by (cases "inFailsafe s") (simp_all add: enterFailsafeMode_again enterFailsafeMode_trace)

lemma targetMissing_inFailsafe:
  "inFailsafe (targetMissing t s) =
     (inFailsafe s \<or> failsafeCondition t (s\<lparr>failedScans := int32 (failedScans s + 1)\<rparr>))"
  by (simp add: targetMissing_def Let_def failsafeCondition_def)

lemma failsafeEntries_targetMissing:
  "failsafeEntries (trace (targetMissing t s)) =
     failsafeEntries (trace s) + (if \<not> inFailsafe s \<and> inFailsafe (targetMissing t s) then 1 else 0)"
  by (simp add: targetMissing_inFailsafe)
     (simp add: targetMissing_def Let_def failsafeEntries_enterFailsafeMode failsafeCondition_def)

lemma failsafeEntries_scanAndRespond:
  "failsafeEntries (trace (scanAndRespond nets t s)) =
     failsafeEntries (trace s) +
       (if \<not> inFailsafe s \<and> inFailsafe (scanAndRespond nets t s) then 1 else 0)"
proof (cases "findTarget nets")
  case None
  then show ?thesis
    using failsafeEntries_targetMissing [of t "emit (Serial Scanning) s"]
    by (simp add: findTarget_None_scan)
next
  case (Some rssi)
  then show ?thesis
    by (simp add: scanAndRespond_def Let_def)
qed

lemma failsafeEntries_loop:
  "failsafeEntries (trace (loop r s)) =
     failsafeEntries (trace s) + (if \<not> inFailsafe s \<and> inFailsafe (loop r s) then 1 else 0)"
  by (simp add: loop_inFailsafe)
     (simp add: loop_def loopPattern_def loopScan_def failsafeEntries_scanAndRespond)

lemma failsafe_holds_maximum:
  assumes "inFailsafe s" "currentMotorSpeed s = 255" "inFailsafe (loop r s)"
  shows "currentMotorSpeed (loop r s) = 255 \<and>
         motorWrites (trace (loop r s)) = motorWrites (trace s)"
proof (cases "scanDue r s")
  case False
  with assms show ?thesis
    by (simp add: loop_def loopPattern_def loopScan_def)
next
  case True
  with assms have "findTarget (networks r) = None"
    by (simp add: loop_inFailsafe loopScan_def scanAndRespond_inFailsafe)
  with True assms(1,2) show ?thesis
    by (simp add: loop_def loopPattern_def loopScan_def findTarget_None_scan
        targetMissing_def Let_def enterFailsafeMode_again setMotorSpeed_same)
qed

text \<open>
  C8. \<^verbatim>\<open>enterFailsafeMode()\<close> acts on the rising edge only. Called outside failsafe it
  sets the flag, first leaves the boundary warning (writing \<open>0\<close> if the motor ran), then
  writes \<open>255\<close>, waits 500 ms, writes \<open>0\<close>, waits 300 ms, does the same a second time, and
  ends with the motor at \<open>255\<close>. Called in failsafe it changes nothing. In every pass of
  the loop the number of announced failsafe entries grows by one if the pass takes the
  flag from unset to set, and not at all otherwise. While the flag stays set, a pass of
  the loop leaves the intensity at \<open>255\<close> and writes nothing to the motor.
\<close>

theorem enterFailsafeMode_one_shot:
  "(\<not> inFailsafe s \<longrightarrow>
      inFailsafe (enterFailsafeMode s) \<and>
      \<not> inBoundaryWarning (enterFailsafeMode s) \<and>
      patternIdle (enterFailsafeMode s) \<and>
      currentMotorSpeed (enterFailsafeMode s) = 255 \<and>
      newEvents s (enterFailsafeMode s) =
        [Serial EnteringFailsafe, Serial ExitingBoundary] @
        (if currentMotorSpeed s = 0 then []
         else [AnalogWrite 0, DigitalWrite True, Serial (MotorSpeedSet 0)]) @
        [AnalogWrite 255, DigitalWrite True, Serial (MotorSpeedSet 255), DigitalWrite True,
         Delay 500,
         AnalogWrite 0, DigitalWrite True, Serial (MotorSpeedSet 0), DigitalWrite False,
         Delay 300,
         AnalogWrite 255, DigitalWrite True, Serial (MotorSpeedSet 255), DigitalWrite True,
         Delay 500,
         AnalogWrite 0, DigitalWrite True, Serial (MotorSpeedSet 0), DigitalWrite False,
         Delay 300,
         AnalogWrite 255, DigitalWrite True, Serial (MotorSpeedSet 255), DigitalWrite True]) \<and>
   (inFailsafe s \<longrightarrow> enterFailsafeMode s = s) \<and>
   (\<forall>r. failsafeEntries (trace (loop r s)) =
          failsafeEntries (trace s) +
            (if \<not> inFailsafe s \<and> inFailsafe (loop r s) then 1 else 0)) \<and>
   (\<forall>r. inFailsafe s \<and> currentMotorSpeed s = 255 \<and> inFailsafe (loop r s) \<longrightarrow>
          currentMotorSpeed (loop r s) = 255 \<and>
          motorWrites (trace (loop r s)) = motorWrites (trace s))"
proof -
  have fresh: "inFailsafe (enterFailsafeMode s) \<and>
      \<not> inBoundaryWarning (enterFailsafeMode s) \<and>
      patternIdle (enterFailsafeMode s) \<and>
      currentMotorSpeed (enterFailsafeMode s) = 255" if "\<not> inFailsafe s"
    using enterFailsafeMode_fresh [OF that] by (simp add: patternIdle_def)
  have events: "newEvents s (enterFailsafeMode s) =
        [Serial EnteringFailsafe, Serial ExitingBoundary] @
        (if currentMotorSpeed s = 0 then []
         else [AnalogWrite 0, DigitalWrite True, Serial (MotorSpeedSet 0)]) @
        [AnalogWrite 255, DigitalWrite True, Serial (MotorSpeedSet 255), DigitalWrite True,
         Delay 500,
         AnalogWrite 0, DigitalWrite True, Serial (MotorSpeedSet 0), DigitalWrite False,
         Delay 300,
         AnalogWrite 255, DigitalWrite True, Serial (MotorSpeedSet 255), DigitalWrite True,
         Delay 500,
         AnalogWrite 0, DigitalWrite True, Serial (MotorSpeedSet 0), DigitalWrite False,
         Delay 300,
         AnalogWrite 255, DigitalWrite True, Serial (MotorSpeedSet 255), DigitalWrite True]"
    if "\<not> inFailsafe s"
    unfolding newEvents_def enterFailsafeMode_trace [OF that] by simp
  from fresh events enterFailsafeMode_again [of s] failsafeEntries_loop [of _ s]
    failsafe_holds_maximum [of s]
  show ?thesis
    by blast
qed

theorem enterFailsafeMode_one_shot_witness:
  "\<not> inFailsafe booted \<and> inFailsafe (enterFailsafeMode booted) \<and>
   motorWrites (newEvents booted (enterFailsafeMode booted)) = [255, 0, 255, 0, 255] \<and>
   inFailsafe lost \<and> enterFailsafeMode lost = lost \<and>
   failsafeEntries (trace lost) = failsafeEntries (trace booted) + 1 \<and>
   currentMotorSpeed lost = 255 \<and> inFailsafe (loop (quiet 41000) lost) \<and>
   currentMotorSpeed (loop (quiet 41000) lost) = 255 \<and>
   motorWrites (trace (loop (quiet 41000) lost)) = motorWrites (trace lost)"
proof -
  have b: "\<not> inFailsafe booted" "currentMotorSpeed booted = 0"
    by (simp_all add: booted_def setup_sketch_def initial_state_def Let_def)
  have l: "currentMotorSpeed lost = 255" "inFailsafe (loop (quiet 41000) lost)"
    by (simp_all add: example_defs model_defs)
  note T = enterFailsafeMode_one_shot [of booted]
  note U = enterFailsafeMode_one_shot [of lost]
  from T b have 1: "inFailsafe (enterFailsafeMode booted)"
    by blast
  from T b have 2: "motorWrites (newEvents booted (enterFailsafeMode booted)) = [255, 0, 255, 0, 255]"
    by simp
  from U inFailsafe_lost have 3: "enterFailsafeMode lost = lost"
    by blast
  from T b inFailsafe_lost have 4: "failsafeEntries (trace lost) = failsafeEntries (trace booted) + 1"
    unfolding lost_def by simp
  from U inFailsafe_lost l have 5: "currentMotorSpeed (loop (quiet 41000) lost) = 255 \<and>
   motorWrites (trace (loop (quiet 41000) lost)) = motorWrites (trace lost)"
    by blast
  from b(1) 1 2 inFailsafe_lost 3 4 l 5 show ?thesis
    by blast
qed

section \<open>The pulse count and the end of a pattern\<close>

lemma handleBoundaryWarning_trace:
  "pattern_invariant s \<Longrightarrow>
   trace (handleBoundaryWarning t s) = trace s @
     (if \<not> buzzing s \<and> \<not> buzzPause s
      then (if currentMotorSpeed s = 200 then []
            else [AnalogWrite 200, DigitalWrite True, Serial (MotorSpeedSet 200)]) @
           [DigitalWrite True, Serial (BuzzStarted (buzzCount s + 1))]
      else if buzzing s \<and> 300 \<le> t - buzzStartTime s
      then (if currentMotorSpeed s = 0 then []
            else [AnalogWrite 0, DigitalWrite True, Serial (MotorSpeedSet 0)]) @
           [DigitalWrite False] @
           (if buzzCount s = 2 then [Serial PatternComplete] else [])
      else [])"
  by (auto simp add: handleBoundaryWarning_def startBuzz_def endBuzz_def Let_def
      pattern_invariant_def setMotorSpeed_trace int32_id to_ulong_def BUZZ_DURATION_def)

lemma handleBoundaryWarning_long_pause:
  "pattern_invariant s \<Longrightarrow>
   (\<not> inLongPause s \<and> inLongPause (handleBoundaryWarning t s)) =
   (buzzing s \<and> 300 \<le> t - buzzStartTime s \<and> buzzCount s = 2)"
  by (auto simp add: handleBoundaryWarning_def startBuzz_def endBuzz_def endPause_def Let_def
      pattern_invariant_def inLongPause_def int32_id to_ulong_def config_defs)

lemma pattern_invariant_loopScan:
  assumes "reachable s"
  shows "pattern_invariant (loopScan r s)"
proof -
  from assms have inv: "pattern_invariant s" "failsafe_invariant s"
    by (simp_all add: reachable_invariants)
  from inv invariants_scanAndRespond [OF inv, of "networks r" "scanMillis r"]
  show ?thesis
    by (simp add: loopScan_def pattern_invariant_def)
qed

lemma pattern_complete_iff:
  assumes "pattern_invariant s"
  shows "Serial PatternComplete \<in> set (newEvents s (handleBoundaryWarning t s)) \<longleftrightarrow>
         \<not> inLongPause s \<and> inLongPause (handleBoundaryWarning t s)"
  unfolding handleBoundaryWarning_long_pause [OF assms] newEvents_def
    handleBoundaryWarning_trace [OF assms]
  by simp

text \<open>
  C9. In every reachable state, and in every state in which a pass of the loop from a
  reachable state may call the handler, the pulse count is \<open>0\<close>, \<open>1\<close> or \<open>2\<close>. The pattern
  part of a pass prints the pattern-complete message exactly when it takes the machine
  into the long pause.
\<close>

theorem buzzCount_range_pattern_complete:
  assumes "reachable s"
  shows "0 \<le> buzzCount s \<and> buzzCount s < 3 \<and>
    (\<forall>r. 0 \<le> buzzCount (loopScan r s) \<and> buzzCount (loopScan r s) < 3 \<and>
         (Serial PatternComplete \<in> set (newEvents (loopScan r s) (loopPattern r (loopScan r s)))
            \<longleftrightarrow> \<not> inLongPause (loopScan r s) \<and> inLongPause (loopPattern r (loopScan r s))))"
proof -
  from assms have 1: "0 \<le> buzzCount s \<and> buzzCount s < 3"
    using reachable_invariants [of s] by (simp add: pattern_invariant_def)
  have 2: "0 \<le> buzzCount (loopScan r s) \<and> buzzCount (loopScan r s) < 3" for r
    using pattern_invariant_loopScan [OF assms, of r] by (simp add: pattern_invariant_def)
  have 3: "Serial PatternComplete \<in> set (newEvents (loopScan r s) (loopPattern r (loopScan r s)))
            \<longleftrightarrow> \<not> inLongPause (loopScan r s) \<and> inLongPause (loopPattern r (loopScan r s))" for r
    using pattern_complete_iff [OF pattern_invariant_loopScan [OF assms, of r], of "patternMillis r"]
    by (simp add: loopPattern_def newEvents_def)
  from 1 2 3 show ?thesis by blast
qed

lemma reachable_third_pulse: "reachable third_pulse"
  unfolding third_pulse_def foldl.simps
  by (intro reachable.after_loop reachable_booted)

theorem buzzCount_range_pattern_complete_witness:
  "reachable third_pulse \<and> buzzCount third_pulse = 2 \<and>
   Serial PatternComplete \<in> set (newEvents (loopScan (sighting (- 80) 2120) third_pulse)
      (loopPattern (sighting (- 80) 2120) (loopScan (sighting (- 80) 2120) third_pulse))) \<and>
   \<not> inLongPause (loopScan (sighting (- 80) 2120) third_pulse) \<and>
   inLongPause (loopPattern (sighting (- 80) 2120) (loopScan (sighting (- 80) 2120) third_pulse)) \<and>
   buzzCount (loopPattern (sighting (- 80) 2120) (loopScan (sighting (- 80) 2120) third_pulse)) = 0"
proof -
  have c: "buzzCount third_pulse = 2"
    by (simp add: third_pulse_def example_defs model_defs)
  have p: "inLongPause (loopPattern (sighting (- 80) 2120) (loopScan (sighting (- 80) 2120) third_pulse))"
    by (simp add: third_pulse_def example_defs model_defs inLongPause_def)
  have q: "\<not> inLongPause (loopScan (sighting (- 80) 2120) third_pulse)"
    by (simp add: third_pulse_def example_defs model_defs inLongPause_def)
  from buzzCount_range_pattern_complete [OF reachable_third_pulse] reachable_third_pulse c p q show ?thesis
    by (simp add: inLongPause_def)
qed

section \<open>A missed scan during the boundary warning\<close>

lemma ulong_ge_iff: "(to_ulong BUZZ_DURATION \<le> w) = (BUZZ_DURATION \<le> uint w)"
  by (simp add: to_ulong_def BUZZ_DURATION_def word_le_def)

lemma targetMissing_no_failsafe:
  assumes "\<not> (FAILSAFE_TIMEOUT < uint (t - lastNetworkSeen s) \<or>
              MAX_SCAN_ATTEMPTS \<le> int32 (failedScans s + 1))"
  shows "targetMissing t s =
           (setMotorSpeed 255
              (emit (Serial (NotFound (int32 (failedScans s + 1))))
                 (s\<lparr>failedScans := int32 (failedScans s + 1)\<rparr>)))
           \<lparr>currentScanInterval := FAST_SCAN_INTERVAL\<rparr>"
  using assms by (simp add: targetMissing_def Let_def failsafeCondition_def ulong_gt_iff)

lemma loopScan_missed:
  assumes "scanDue r s" "findTarget (networks r) = None"
    and "\<not> (FAILSAFE_TIMEOUT < uint (scanMillis r - lastNetworkSeen s) \<or>
            MAX_SCAN_ATTEMPTS \<le> int32 (failedScans s + 1))"
  shows "loopScan r s =
           (setMotorSpeed 255
              (emit (Serial (NotFound (int32 (failedScans s + 1))))
                 (emit (Serial Scanning) s\<lparr>failedScans := int32 (failedScans s + 1)\<rparr>)))
           \<lparr>currentScanInterval := FAST_SCAN_INTERVAL, lastScanTime := loopMillis r\<rparr>"
  using assms
  by (simp add: loopScan_def findTarget_None_scan targetMissing_no_failsafe)

text \<open>
  C10. A pass of the loop whose scan is due and misses the target without meeting the
  failsafe condition leaves the boundary-warning flag, the failsafe flag and the state of
  the pattern machine as they were, and commands intensity \<open>255\<close>. If the boundary
  warning was entered, and failsafe was not active, the handler is called in the same pass, on the state the
  scan left. When the machine was idle that call starts a pulse and the pass ends with the motor at
  \<open>200\<close>; when a pulse had run for \<^verbatim>\<open>BUZZ_DURATION\<close> it ends the pulse and the pass ends
  with the motor at \<open>0\<close>. In both cases that value replaces the \<open>255\<close> the scan commanded.
\<close>

theorem missed_scan_keeps_boundary_warning:
  assumes "scanDue r s" "findTarget (networks r) = None"
    and "\<not> (FAILSAFE_TIMEOUT < uint (scanMillis r - lastNetworkSeen s) \<or>
            MAX_SCAN_ATTEMPTS \<le> int32 (failedScans s + 1))"
  shows "inBoundaryWarning (loopScan r s) = inBoundaryWarning s \<and>
         inFailsafe (loopScan r s) = inFailsafe s \<and>
         buzzing (loopScan r s) = buzzing s \<and>
         buzzPause (loopScan r s) = buzzPause s \<and>
         buzzCount (loopScan r s) = buzzCount s \<and>
         buzzStartTime (loopScan r s) = buzzStartTime s \<and>
         currentMotorSpeed (loopScan r s) = 255 \<and>
         motorWrites (trace (loopScan r s)) =
           motorWrites (trace s) @ (if currentMotorSpeed s = 255 then [] else [255]) \<and>
         (inBoundaryWarning s \<and> \<not> inFailsafe s \<longrightarrow>
            loopPattern r (loopScan r s) =
              handleBoundaryWarning (patternMillis r) (loopScan r s) \<and>
            (patternIdle s \<longrightarrow>
               currentMotorSpeed (loop r s) = 200 \<and>
               motorWrites (trace (loop r s)) =
                 motorWrites (trace (loopScan r s)) @ [200]) \<and>
            (buzzing s \<and> BUZZ_DURATION \<le> uint (patternMillis r - buzzStartTime s) \<longrightarrow>
               currentMotorSpeed (loop r s) = 0 \<and>
               motorWrites (trace (loop r s)) =
                 motorWrites (trace (loopScan r s)) @ [0]))"
proof -
  note scan = loopScan_missed [OF assms]
  have frame: "inBoundaryWarning (loopScan r s) = inBoundaryWarning s \<and>
         inFailsafe (loopScan r s) = inFailsafe s \<and>
         buzzing (loopScan r s) = buzzing s \<and>
         buzzPause (loopScan r s) = buzzPause s \<and>
         buzzCount (loopScan r s) = buzzCount s \<and>
         buzzStartTime (loopScan r s) = buzzStartTime s \<and>
         currentMotorSpeed (loopScan r s) = 255 \<and>
         motorWrites (trace (loopScan r s)) =
           motorWrites (trace s) @ (if currentMotorSpeed s = 255 then [] else [255])"
    unfolding scan by (simp add: setMotorSpeed_trace)
  have tick: "loopPattern r (loopScan r s) = handleBoundaryWarning (patternMillis r) (loopScan r s)"
    if "inBoundaryWarning s" "\<not> inFailsafe s"
    using that frame by (simp add: loopPattern_def)
  have idle: "currentMotorSpeed (loop r s) = 200 \<and>
               motorWrites (trace (loop r s)) = motorWrites (trace (loopScan r s)) @ [200]"
    if "inBoundaryWarning s" "\<not> inFailsafe s" "patternIdle s"
    using that frame
    by (simp add: loop_def tick patternIdle_def handleBoundaryWarning_def startBuzz_def
        endBuzz_def Let_def setMotorSpeed_trace to_ulong_def BUZZ_DURATION_def)
  have pulse_end: "currentMotorSpeed (loop r s) = 0 \<and>
               motorWrites (trace (loop r s)) = motorWrites (trace (loopScan r s)) @ [0]"
    if "inBoundaryWarning s" "\<not> inFailsafe s" "buzzing s"
       "BUZZ_DURATION \<le> uint (patternMillis r - buzzStartTime s)"
    using that frame
    by (auto simp add: loop_def tick handleBoundaryWarning_def startBuzz_def
        endBuzz_def Let_def setMotorSpeed_trace ulong_ge_iff)
  from frame tick idle pulse_end show ?thesis
    by blast
qed

theorem missed_scan_keeps_boundary_warning_witness:
  "scanDue (quiet 1300) first_pulse \<and> findTarget (networks (quiet 1300)) = None \<and>
   inBoundaryWarning first_pulse \<and> \<not> inFailsafe first_pulse \<and> buzzing first_pulse \<and>
   inBoundaryWarning (loopScan (quiet 1300) first_pulse) \<and>
   currentMotorSpeed (loopScan (quiet 1300) first_pulse) = 255 \<and>
   currentMotorSpeed (loop (quiet 1300) first_pulse) = 0 \<and>
   motorWrites (trace (loop (quiet 1300) first_pulse)) =
     motorWrites (trace first_pulse) @ [255, 0] \<and>
   scanDue (quiet 1600) between_pulses \<and> patternIdle between_pulses \<and>
   currentMotorSpeed (loop (quiet 1600) between_pulses) = 200 \<and>
   motorWrites (trace (loop (quiet 1600) between_pulses)) =
     motorWrites (trace between_pulses) @ [255, 200]"
proof -
  have f: "scanDue (quiet 1300) first_pulse" "findTarget (networks (quiet 1300)) = None"
    "\<not> (FAILSAFE_TIMEOUT < uint (scanMillis (quiet 1300) - lastNetworkSeen first_pulse) \<or>
            MAX_SCAN_ATTEMPTS \<le> int32 (failedScans first_pulse + 1))"
    "inBoundaryWarning first_pulse" "\<not> inFailsafe first_pulse" "buzzing first_pulse"
    "BUZZ_DURATION \<le> uint (patternMillis (quiet 1300) - buzzStartTime first_pulse)"
    "currentMotorSpeed first_pulse = 200"
    by (simp_all add: first_pulse_def example_defs model_defs)
  have b: "scanDue (quiet 1600) between_pulses" "findTarget (networks (quiet 1600)) = None"
    "\<not> (FAILSAFE_TIMEOUT < uint (scanMillis (quiet 1600) - lastNetworkSeen between_pulses) \<or>
            MAX_SCAN_ATTEMPTS \<le> int32 (failedScans between_pulses + 1))"
    "inBoundaryWarning between_pulses" "\<not> inFailsafe between_pulses"
    "patternIdle between_pulses" "currentMotorSpeed between_pulses = 0"
    by (simp_all add: between_pulses_def first_pulse_def example_defs model_defs patternIdle_def)
  note F = missed_scan_keeps_boundary_warning [OF f(1,2,3)]
  note B = missed_scan_keeps_boundary_warning [OF b(1,2,3)]
  from F f have 1: "inBoundaryWarning (loopScan (quiet 1300) first_pulse) \<and>
   currentMotorSpeed (loopScan (quiet 1300) first_pulse) = 255 \<and>
   currentMotorSpeed (loop (quiet 1300) first_pulse) = 0 \<and>
   motorWrites (trace (loop (quiet 1300) first_pulse)) =
     motorWrites (trace first_pulse) @ [255, 0]"
    by simp
  from B b have 2: "currentMotorSpeed (loop (quiet 1600) between_pulses) = 200 \<and>
   motorWrites (trace (loop (quiet 1600) between_pulses)) =
     motorWrites (trace between_pulses) @ [255, 200]"
    by simp
  from f b 1 2 show ?thesis
    by blast
qed

section \<open>One cycle of the boundary pattern\<close>

lemma tick_idle:
  assumes "\<not> buzzing s" "\<not> buzzPause s" "currentMotorSpeed s = 0"
  shows "handleBoundaryWarning t s =
    s\<lparr>buzzing := True, buzzStartTime := t, currentMotorSpeed := 200,
      trace := trace s @ [AnalogWrite 200, DigitalWrite True, Serial (MotorSpeedSet 200),
                          DigitalWrite True, Serial (BuzzStarted (int32 (buzzCount s + 1)))]\<rparr>"
  using assms
  by (simp add: handleBoundaryWarning_def startBuzz_def endBuzz_def endPause_def
      setMotorSpeed_def emit_def Let_def constrain_def to_ulong_def BUZZ_DURATION_def)

lemma tick_waiting:
  assumes "buzzing s" "\<not> buzzPause s" "\<not> 300 \<le> t - buzzStartTime s"
  shows "handleBoundaryWarning t s = s"
  using assms
  by (simp add: handleBoundaryWarning_def startBuzz_def endBuzz_def endPause_def
      to_ulong_def BUZZ_DURATION_def)

lemma tick_pulse_end:
  assumes "buzzing s" "\<not> buzzPause s" "300 \<le> t - buzzStartTime s" "currentMotorSpeed s = 200"
    "0 \<le> buzzCount s" "buzzCount s < 2"
  shows "handleBoundaryWarning t s =
    s\<lparr>buzzing := False, buzzCount := buzzCount s + 1, buzzPause := True, buzzStartTime := t,
      currentMotorSpeed := 0,
      trace := trace s @ [AnalogWrite 0, DigitalWrite True, Serial (MotorSpeedSet 0),
                          DigitalWrite False]\<rparr>"
  using assms
  by (simp add: handleBoundaryWarning_def startBuzz_def endBuzz_def endPause_def
      setMotorSpeed_def emit_def Let_def constrain_def to_ulong_def config_defs int32_id)

lemma tick_last_pulse_end:
  assumes "buzzing s" "\<not> buzzPause s" "300 \<le> t - buzzStartTime s" "currentMotorSpeed s = 200"
    "buzzCount s = 2"
  shows "handleBoundaryWarning t s =
    s\<lparr>buzzing := False, buzzCount := 0, buzzPause := True, buzzStartTime := t,
      currentMotorSpeed := 0,
      trace := trace s @ [AnalogWrite 0, DigitalWrite True, Serial (MotorSpeedSet 0),
                          DigitalWrite False, Serial PatternComplete]\<rparr>"
  using assms
  by (simp add: handleBoundaryWarning_def startBuzz_def endBuzz_def endPause_def
      setMotorSpeed_def emit_def Let_def constrain_def to_ulong_def config_defs int32_def)

lemma tick_pause:
  assumes "\<not> buzzing s" "buzzPause s"
  shows "handleBoundaryWarning t s =
    (if (if buzzCount s = 0 then 2000 else 100) \<le> t - buzzStartTime s
     then s\<lparr>buzzPause := False\<rparr> else s)"
  using assms
  by (simp add: handleBoundaryWarning_def startBuzz_def endBuzz_def endPause_def
      Let_def to_ulong_def config_defs)

lemma cycleTicks_eq:
  "cycleTicks t0 = [t0, t0 + 300, t0 + 400, t0 + 400, t0 + 700, t0 + 800, t0 + 800,
                    t0 + 1100, t0 + 3100]"
  by (simp add: cycleTicks_def to_ulong_def config_defs Let_def)

lemma pause_not_over: "uint (w :: ulong) < 2000 \<Longrightarrow> \<not> 2000 \<le> w"
  by (simp add: word_le_def)

lemmas tick_cases = tick_idle tick_waiting tick_pulse_end tick_last_pulse_end tick_pause

lemma run8:
  "tickAll (butlast (cycleTicks t0)) (enterBoundaryWarning s) =
     (enterBoundaryWarning s)\<lparr>buzzing := False, buzzCount := 0, buzzPause := True,
        buzzStartTime := t0 + 1100, currentMotorSpeed := 0,
        trace := trace (enterBoundaryWarning s) @
       [AnalogWrite 200, DigitalWrite True, Serial (MotorSpeedSet 200), DigitalWrite True,
        Serial (BuzzStarted 1),
        AnalogWrite 0, DigitalWrite True, Serial (MotorSpeedSet 0), DigitalWrite False,
        AnalogWrite 200, DigitalWrite True, Serial (MotorSpeedSet 200), DigitalWrite True,
        Serial (BuzzStarted 2),
        AnalogWrite 0, DigitalWrite True, Serial (MotorSpeedSet 0), DigitalWrite False,
        AnalogWrite 200, DigitalWrite True, Serial (MotorSpeedSet 200), DigitalWrite True,
        Serial (BuzzStarted 3),
        AnalogWrite 0, DigitalWrite True, Serial (MotorSpeedSet 0), DigitalWrite False,
        Serial PatternComplete]\<rparr>"
  unfolding cycleTicks_eq
  by (simp add: tick_cases int32_def)

lemma tickAll_append: "tickAll (ts @ [t]) s = handleBoundaryWarning t (tickAll ts s)"
  by (induction ts arbitrary: s) simp_all

lemma cycleTicks_split: "cycleTicks t0 = butlast (cycleTicks t0) @ [t0 + 3100]"
  by (simp add: cycleTicks_eq)

text \<open>
  C4, as amended. After entry into the boundary warning at clock value \<open>t0\<close>, the calls of
  the handler at the clock values \<open>cycleTicks t0\<close>, the last of them
  \<open>3 * (BUZZ_DURATION + BUZZ_PAUSE) - BUZZ_PAUSE + PATTERN_PAUSE = 3100\<close> ms after the
  first, produce exactly three pulses and the pattern-complete message and leave the
  machine idle with pulse count \<open>0\<close>. The machine is in the long pause before the last
  call, and a call at any clock value less than \<^verbatim>\<open>PATTERN_PAUSE\<close> after the end of the
  third pulse would have left it there.
\<close>

theorem pattern_cycle_with_restart_ticks:
  "last (cycleTicks t0) - t0 =
     to_ulong (3 * (BUZZ_DURATION + BUZZ_PAUSE) - BUZZ_PAUSE + PATTERN_PAUSE) \<and>
   patternIdle (tickAll (cycleTicks t0) (enterBoundaryWarning s)) \<and>
   buzzCount (tickAll (cycleTicks t0) (enterBoundaryWarning s)) = 0 \<and>
   inBoundaryWarning (tickAll (cycleTicks t0) (enterBoundaryWarning s)) \<and>
   currentMotorSpeed (tickAll (cycleTicks t0) (enterBoundaryWarning s)) = 0 \<and>
   newEvents (enterBoundaryWarning s) (tickAll (cycleTicks t0) (enterBoundaryWarning s)) =
       [AnalogWrite 200, DigitalWrite True, Serial (MotorSpeedSet 200), DigitalWrite True,
        Serial (BuzzStarted 1),
        AnalogWrite 0, DigitalWrite True, Serial (MotorSpeedSet 0), DigitalWrite False,
        AnalogWrite 200, DigitalWrite True, Serial (MotorSpeedSet 200), DigitalWrite True,
        Serial (BuzzStarted 2),
        AnalogWrite 0, DigitalWrite True, Serial (MotorSpeedSet 0), DigitalWrite False,
        AnalogWrite 200, DigitalWrite True, Serial (MotorSpeedSet 200), DigitalWrite True,
        Serial (BuzzStarted 3),
        AnalogWrite 0, DigitalWrite True, Serial (MotorSpeedSet 0), DigitalWrite False,
        Serial PatternComplete] \<and>
   inLongPause (tickAll (butlast (cycleTicks t0)) (enterBoundaryWarning s)) \<and>
   (\<forall>t. uint (t - (t0 + 1100)) < PATTERN_PAUSE \<longrightarrow>
        inLongPause (tickAll (butlast (cycleTicks t0) @ [t]) (enterBoundaryWarning s)))"
proof -
  have total: "last (cycleTicks t0) - t0 =
     to_ulong (3 * (BUZZ_DURATION + BUZZ_PAUSE) - BUZZ_PAUSE + PATTERN_PAUSE)"
    by (simp add: cycleTicks_eq to_ulong_def config_defs)
  have before: "inLongPause (tickAll (butlast (cycleTicks t0)) (enterBoundaryWarning s))"
    by (simp add: run8 inLongPause_def)
  have early: "inLongPause (tickAll (butlast (cycleTicks t0) @ [t]) (enterBoundaryWarning s))"
    if "uint (t - (t0 + 1100)) < PATTERN_PAUSE" for t
    using that
    by (simp add: tickAll_append run8 tick_pause inLongPause_def pause_not_over
        PATTERN_PAUSE_def)
  have final: "tickAll (cycleTicks t0) (enterBoundaryWarning s) =
      (tickAll (butlast (cycleTicks t0)) (enterBoundaryWarning s))\<lparr>buzzPause := False\<rparr>"
    by (subst cycleTicks_split) (simp add: tickAll_append run8 tick_pause)
  have after: "patternIdle (tickAll (cycleTicks t0) (enterBoundaryWarning s)) \<and>
   buzzCount (tickAll (cycleTicks t0) (enterBoundaryWarning s)) = 0 \<and>
   inBoundaryWarning (tickAll (cycleTicks t0) (enterBoundaryWarning s)) \<and>
   currentMotorSpeed (tickAll (cycleTicks t0) (enterBoundaryWarning s)) = 0"
    unfolding final by (simp add: run8 patternIdle_def)
  have events: "newEvents (enterBoundaryWarning s)
          (tickAll (cycleTicks t0) (enterBoundaryWarning s)) =
       [AnalogWrite 200, DigitalWrite True, Serial (MotorSpeedSet 200), DigitalWrite True,
        Serial (BuzzStarted 1),
        AnalogWrite 0, DigitalWrite True, Serial (MotorSpeedSet 0), DigitalWrite False,
        AnalogWrite 200, DigitalWrite True, Serial (MotorSpeedSet 200), DigitalWrite True,
        Serial (BuzzStarted 2),
        AnalogWrite 0, DigitalWrite True, Serial (MotorSpeedSet 0), DigitalWrite False,
        AnalogWrite 200, DigitalWrite True, Serial (MotorSpeedSet 200), DigitalWrite True,
        Serial (BuzzStarted 3),
        AnalogWrite 0, DigitalWrite True, Serial (MotorSpeedSet 0), DigitalWrite False,
        Serial PatternComplete]"
    unfolding final by (simp add: run8 newEvents_def)
  from total before early after events show ?thesis
    by blast
qed

theorem pattern_cycle_with_restart_ticks_witness:
  "uint ((7000 :: ulong) - (5000 + 1100)) < PATTERN_PAUSE \<and>
   inLongPause (tickAll (butlast (cycleTicks 5000) @ [7000]) (enterBoundaryWarning booted)) \<and>
   patternIdle (tickAll (cycleTicks 5000) (enterBoundaryWarning booted)) \<and>
   last (cycleTicks 5000) = 8100"
proof -
  have h: "uint ((7000 :: ulong) - (5000 + 1100)) < PATTERN_PAUSE"
    by (simp add: PATTERN_PAUSE_def)
  have l: "last (cycleTicks 5000) = 8100"
    by (simp add: cycleTicks_eq)
  from pattern_cycle_with_restart_ticks [of 5000 booted] h l show ?thesis
    by blast
qed

text \<open>
  C4 as it is stated fails when no two calls of the handler read the same clock value.
  With calls every 10 ms from the entry, the machine is in the long pause 3100 ms after
  the entry, and idle only at 3120 ms. With one call at each of the clock values \<open>0\<close>,
  \<open>300\<close>, \<open>400\<close>, \<open>700\<close>, \<open>800\<close>, \<open>1100\<close> and \<open>3100\<close>, the machine is idle after the last
  call, but it has produced two pulses and no long pause.
\<close>

theorem pattern_cycle_3100_counterexample:
  "last (everyTenMs 311) = 3100 \<and>
   inLongPause (tickAll (everyTenMs 311) (enterBoundaryWarning booted)) \<and>
   \<not> patternIdle (tickAll (everyTenMs 311) (enterBoundaryWarning booted)) \<and>
   \<not> patternIdle (tickAll (everyTenMs 312) (enterBoundaryWarning booted)) \<and>
   patternIdle (tickAll (everyTenMs 313) (enterBoundaryWarning booted)) \<and>
   buzzCount (tickAll [0, 300, 400, 700, 800, 1100, 3100] (enterBoundaryWarning booted)) = 2 \<and>
   motorWrites (newEvents (enterBoundaryWarning booted)
      (tickAll [0, 300, 400, 700, 800, 1100, 3100] (enterBoundaryWarning booted))) =
     [200, 0, 200, 0] \<and>
   Serial PatternComplete \<notin>
     set (trace (tickAll [0, 300, 400, 700, 800, 1100, 3100] (enterBoundaryWarning booted)))"
  by code_simp

end
